theory Spec2Isabelle
  imports Main
begin

section \<open>The create-document-button view model\<close>

text \<open>
  A shallow embedding of the view model of
  \<^verbatim>\<open>ggrc-client/js/components/create-document-button/create-document-button.js\<close>.
  Every method becomes a function that returns the list of effects the method
  causes (requests, prompts, notifications, saves) together with the final
  state of the jQuery deferred it returns. The collaborators the file imports
  (\<^verbatim>\<open>ggrcPost\<close>, \<^verbatim>\<open>confirm\<close>, \<^verbatim>\<open>Document.save\<close>,
  \<^verbatim>\<open>refreshPermissions\<close>) are not part of the file; their outcomes are
  fields of an environment record.
\<close>

subsection \<open>Data\<close>

text \<open>A file picked in Google Drive: the code reads \<^verbatim>\<open>file.id\<close> and \<^verbatim>\<open>file.title\<close>.\<close>

record picked_file =
  file_id :: string
  file_title :: string

text \<open>
  The attributes of a \<^verbatim>\<open>Document\<close> model instance.
  \<^verbatim>\<open>context: new Context({id: null})\<close> is \<open>context_id = None\<close>; an instance
  that has not been saved has \<open>doc_id = None\<close>.
\<close>

record attrs =
  doc_id :: "nat option"
  title :: string
  source_gdrive_id :: string
  context_id :: "nat option"

datatype document = Document attrs

text \<open>
  One entry of the response of \<^verbatim>\<open>/api/document/documents_exist\<close>. The code reads
  \<^verbatim>\<open>status.exists\<close>, \<^verbatim>\<open>status.gdrive_id\<close> and, for an existing document only,
  \<^verbatim>\<open>doc.object\<close>.
\<close>

record status =
  gdrive_id :: string
  exists :: bool
  object :: attrs

text \<open>The JavaScript values that travel through the deferreds of this file.\<close>

datatype jsval = Undefined | Doc document | Arr "jsval list"

text \<open>
  Why a deferred is rejected or a callback throws: a failed request (with its
  HTTP status) or the \<^verbatim>\<open>TypeError\<close> of reading a property of \<^verbatim>\<open>undefined\<close>.
\<close>

datatype failure = RequestFailed nat | TypeError

text \<open>
  The final state of a promise: resolved, rejected, or never settled. A jQuery
  deferred is resolved with an argument list (\<^verbatim>\<open>dfd.resolve(a, b, ...)\<close>);
  the promise a \<^verbatim>\<open>then\<close> returns is resolved with the one value its callback
  returned.
\<close>

datatype 'a deferred = Pending | Resolved 'a | Rejected failure

type_synonym jq_deferred = "jsval list deferred"

text \<open>A synchronous call either returns or throws.\<close>

datatype 'a completion = Returned 'a | Threw failure

datatype answer = Proceed | Cancel

datatype target = ParentInstance | ViewModel

datatype event_type =
    BEFORE_DOCUMENT_CREATE
  | DOCUMENT_CREATE_FAILED
  | MAP_OBJECTS "jsval list"

text \<open>
  The observable effects. \<open>Confirm n phrase ptype ptitle\<close> is the modal of
  \<^verbatim>\<open>showConfirm\<close> with the values interpolated into its description.
\<close>

datatype effect =
    GgrcPost string "string list"
  | Confirm nat string string string
  | Dispatch target event_type
  | Save document
  | RefreshPermissions

text \<open>
  The collaborators. \<open>then_catches\<close> says whether \<^verbatim>\<open>.then\<close> turns an exception
  thrown by a callback into a rejection of the promise it returned (jQuery 3)
  or lets it escape, leaving that promise unsettled (jQuery 1.8 to 2).
\<close>

record env =
  parent_type :: string
  parent_title :: string
  documents_exist :: "string list \<Rightarrow> failure + status list"
  confirm_answer :: answer
  make_admin :: "string list \<Rightarrow> failure + unit"
  save :: "document \<Rightarrow> failure + document"
  refreshPermissions :: "failure + unit"
  then_catches :: bool

subsection \<open>jQuery and can-util primitives\<close>

text \<open>\<^verbatim>\<open>dfd.resolve(args)\<close>: settles a pending deferred, does nothing to a settled one.\<close>

definition resolve :: "'a \<Rightarrow> 'a deferred \<Rightarrow> 'a deferred" where
  "resolve args dfd = (case dfd of Pending \<Rightarrow> Resolved args | _ \<Rightarrow> dfd)"

text \<open>
  The value \<^verbatim>\<open>$.when\<close> keeps for one of several deferreds:
  \<^verbatim>\<open>arguments.length > 1 ? slice.call(arguments) : value\<close>.
\<close>

definition resolve_value :: "jsval list \<Rightarrow> jsval" where
  "resolve_value args =
     (case args of [] \<Rightarrow> Undefined | [v] \<Rightarrow> v | _ \<Rightarrow> Arr args)"

fun first_rejected :: "'a deferred list \<Rightarrow> failure option" where
  "first_rejected [] = None"
| "first_rejected (Rejected e # ds) = Some e"
| "first_rejected (d # ds) = first_rejected ds"

fun resolved_args :: "'a deferred list \<Rightarrow> 'a list option" where
  "resolved_args [] = Some []"
| "resolved_args (Resolved args # ds) =
     (case resolved_args ds of None \<Rightarrow> None | Some rest \<Rightarrow> Some (args # rest))"
| "resolved_args (d # ds) = None"

text \<open>
  \<^verbatim>\<open>$.when(d1, ..., dn)\<close>. A single deferred is passed through with its
  arguments. Several deferreds are joined: the join is rejected as soon as one
  of them is, resolved with one value per deferred once all are resolved, and
  pending otherwise. When several are rejected the join carries the failure of
  the one rejected first in time; the model takes the leftmost.
\<close>

definition jq_when :: "jq_deferred list \<Rightarrow> jq_deferred" where
  "jq_when ds =
     (case ds of
        [] \<Rightarrow> Resolved []
      | [d] \<Rightarrow> d
      | _ \<Rightarrow>
         (case first_rejected ds of
            Some e \<Rightarrow> Rejected e
          | None \<Rightarrow>
             (case resolved_args ds of
                Some argss \<Rightarrow> Resolved (map resolve_value argss)
              | None \<Rightarrow> Pending)))"

text \<open>
  \<^verbatim>\<open>makeArray\<close> of can-util: the elements of an array-like value, no element
  for a falsy value, the value itself as the only element otherwise. A
  \<^verbatim>\<open>Document\<close> instance is not array-like.
\<close>

fun makeArray :: "jsval \<Rightarrow> jsval list" where
  "makeArray (Arr xs) = xs"
| "makeArray Undefined = []"
| "makeArray (Doc d) = [Doc d]"

subsection \<open>The methods\<close>

text \<open>
  \<^verbatim>\<open>checkDocumentsExist(files)\<close>: one request carrying the ids of all files; the
  promise of the request is returned as it is.
\<close>

definition checkDocumentsExist ::
  "env \<Rightarrow> picked_file list \<Rightarrow> effect list \<times> (failure + status list)" where
  "checkDocumentsExist e files =
     ([GgrcPost ''/api/document/documents_exist'' (map file_id files)],
      documents_exist e (map file_id files))"

text \<open>\<^verbatim>\<open>makeAdmin(documents)\<close>: one request carrying the ids of all documents.\<close>

definition makeAdmin ::
  "env \<Rightarrow> status list \<Rightarrow> effect list \<times> (failure + unit)" where
  "makeAdmin e documents =
     ([GgrcPost ''/api/document/make_admin'' (map gdrive_id documents)],
      make_admin e (map gdrive_id documents))"

text \<open>
  \<^verbatim>\<open>showConfirm(documents)\<close>: opens the modal; the deferred it returns is
  resolved by the Proceed button and rejected when the modal is cancelled.
\<close>

definition showConfirm :: "env \<Rightarrow> status list \<Rightarrow> effect list \<times> answer" where
  "showConfirm e documents =
     (let docsCount = length documents in
      ([Confirm docsCount (if docsCount > 1 then ''files are'' else ''file is'')
          (parent_type e) (parent_title e)],
       confirm_answer e))"

text \<open>\<^verbatim>\<open>documents.map((doc) => new Document(doc.object))\<close>\<close>

definition existing_docs :: "status list \<Rightarrow> jsval list" where
  "existing_docs documents = map (\<lambda>doc. Doc (Document (object doc))) documents"

text \<open>
  \<^verbatim>\<open>useExistingDocuments(documents)\<close>. The method returns its own deferred
  \<open>dfd\<close>, which only ever receives \<^verbatim>\<open>resolve\<close> calls:
  \<^item> no documents: \<open>dfd\<close> is resolved with the empty array at once;
  \<^item> the modal is cancelled: the second callback of the first \<^verbatim>\<open>then\<close> resolves
    \<open>dfd\<close> with the empty array and returns \<open>dfd\<close>, so the chained promise is
    resolved and the callback of the second \<^verbatim>\<open>then\<close> runs and calls
    \<^verbatim>\<open>dfd.resolve(docs)\<close> on the deferred that is settled already;
  \<^item> the user proceeds: \<^verbatim>\<open>makeAdmin\<close> is called; when its request succeeds the
    callback of the second \<^verbatim>\<open>then\<close> resolves \<open>dfd\<close> with the documents; when
    it fails that \<^verbatim>\<open>then\<close> has no failure callback and nothing touches \<open>dfd\<close>.
\<close>

definition useExistingDocuments ::
  "env \<Rightarrow> status list \<Rightarrow> effect list \<times> jq_deferred" where
  "useExistingDocuments e documents =
     (let dfd = (Pending :: jq_deferred) in
      if length documents = 0 then ([], resolve [Arr []] dfd)
      else
        (case showConfirm e documents of
           (t1, Proceed) \<Rightarrow>
             (case makeAdmin e documents of
                (t2, Inr _) \<Rightarrow>
                  (t1 @ t2, resolve [Arr (existing_docs documents)] dfd)
              | (t2, Inl _) \<Rightarrow> (t1 @ t2, dfd))
         | (t1, Cancel) \<Rightarrow>
             (t1, resolve [Arr (existing_docs documents)] (resolve [Arr []] dfd))))"

text \<open>
  The instance \<^verbatim>\<open>createDocuments\<close> builds for one file. Reading \<^verbatim>\<open>file.title\<close>
  of an \<^verbatim>\<open>undefined\<close> entry (\<open>None\<close>) throws.
\<close>

definition new_document :: "picked_file \<Rightarrow> document" where
  "new_document f =
     Document \<lparr>doc_id = None, title = file_title f,
               source_gdrive_id = file_id f, context_id = None\<rparr>"

definition save_result :: "env \<Rightarrow> document \<Rightarrow> jq_deferred" where
  "save_result e instance =
     (case save e instance of Inl err \<Rightarrow> Rejected err | Inr d \<Rightarrow> Resolved [Doc d])"

text \<open>
  \<^verbatim>\<open>files.map((file) => { ...; return instance.save(); })\<close>: the saves are issued
  in file order, none waits for another; an \<^verbatim>\<open>undefined\<close> entry ends the loop
  with the exception, after the saves of the entries before it were issued.
\<close>

fun save_each :: "env \<Rightarrow> picked_file option list \<Rightarrow> effect list \<times> jq_deferred list completion" where
  "save_each e [] = ([], Returned [])"
| "save_each e (None # fs) = ([], Threw TypeError)"
| "save_each e (Some f # fs) =
     (let instance = new_document f in
      case save_each e fs of
        (t, Returned ds) \<Rightarrow> (Save instance # t, Returned (save_result e instance # ds))
      | (t, Threw err) \<Rightarrow> (Save instance # t, Threw err))"

definition is_rejected :: "'a deferred \<Rightarrow> bool" where
  "is_rejected d = (case d of Rejected _ \<Rightarrow> True | _ \<Rightarrow> False)"

text \<open>
  \<^verbatim>\<open>createDocuments(files)\<close>. \<^verbatim>\<open>.fail(cb)\<close> returns the deferred it is called on,
  so the method returns the join of the saves itself.
\<close>

definition createDocuments ::
  "env \<Rightarrow> picked_file option list \<Rightarrow> effect list \<times> jq_deferred completion" where
  "createDocuments e files =
     (if length files = 0 then ([], Returned (Resolved [Arr []]))
      else
        (let t0 = [Dispatch ParentInstance BEFORE_DOCUMENT_CREATE] in
         case save_each e files of
           (t1, Threw err) \<Rightarrow> (t0 @ t1, Threw err)
         | (t1, Returned dfdDocs) \<Rightarrow>
             (let joined = jq_when dfdDocs in
              (t0 @ t1 @
                 (if is_rejected joined
                  then [Dispatch ParentInstance DOCUMENT_CREATE_FAILED] else []),
               Returned joined))))"

text \<open>
  \<^verbatim>\<open>refreshPermissionsAndMap(documents)\<close>. The notification is dispatched on the
  view model (\<^verbatim>\<open>this.dispatch\<close>), from the success callback of \<^verbatim>\<open>dfd.then\<close>
  only. The method has no \<^verbatim>\<open>return\<close>: its value is \<^verbatim>\<open>undefined\<close>.
\<close>

definition refreshPermissionsAndMap :: "env \<Rightarrow> jsval list \<Rightarrow> effect list \<times> jsval" where
  "refreshPermissionsAndMap e documents =
     (if length documents \<noteq> 0 then
        (case refreshPermissions e of
           Inr _ \<Rightarrow> ([RefreshPermissions, Dispatch ViewModel (MAP_OBJECTS documents)], Undefined)
         | Inl _ \<Rightarrow> ([RefreshPermissions], Undefined))
      else ([Dispatch ViewModel (MAP_OBJECTS documents)], Undefined))"

text \<open>
  The loop \<^verbatim>\<open>statuses.forEach\<close> of \<^verbatim>\<open>mapDocuments\<close>: one step per status, on the
  pair of arrays it pushes to. \<^verbatim>\<open>files.find\<close> gives the first file with the
  id, or \<^verbatim>\<open>undefined\<close>.
\<close>

definition partition_step ::
  "picked_file list \<Rightarrow> status list \<times> picked_file option list \<Rightarrow> status
     \<Rightarrow> status list \<times> picked_file option list" where
  "partition_step files acc st =
     (case acc of (existingDocuments, newFiles) \<Rightarrow>
        if exists st then (existingDocuments @ [st], newFiles)
        else (existingDocuments,
              newFiles @ [find (\<lambda>file. file_id file = gdrive_id st) files]))"

definition partition_statuses ::
  "picked_file list \<Rightarrow> status list \<Rightarrow> status list \<times> picked_file option list" where
  "partition_statuses files statuses = foldl (partition_step files) ([], []) statuses"

text \<open>\<^verbatim>\<open>[...makeArray(existingDocs), ...makeArray(newDocs)]\<close>\<close>

definition merge_docs :: "jsval \<Rightarrow> jsval \<Rightarrow> jsval list" where
  "merge_docs existingDocs newDocs = makeArray existingDocs @ makeArray newDocs"

text \<open>
  \<^verbatim>\<open>$.when(existing, created).then((existingDocs, newDocs) => ...)\<close>: resolved
  with the merged array (given by its elements) once both branches are
  resolved; a rejection passes through.
\<close>

definition join_branches :: "jq_deferred \<Rightarrow> jq_deferred \<Rightarrow> jsval list deferred" where
  "join_branches existing created =
     (case jq_when [existing, created] of
        Resolved vs \<Rightarrow>
          Resolved (merge_docs (case vs of [] \<Rightarrow> Undefined | v # _ \<Rightarrow> v)
                               (case vs of _ # w # _ \<Rightarrow> w | _ \<Rightarrow> Undefined))
      | Rejected err \<Rightarrow> Rejected err
      | Pending \<Rightarrow> Pending)"

text \<open>
  The first \<^verbatim>\<open>then\<close> callback of \<^verbatim>\<open>mapDocuments\<close>, given the statuses: the
  partition, then both branches, \<^verbatim>\<open>useExistingDocuments\<close> called first. In the
  effect list the effects of the first branch stand before those of the second;
  in time a request of the first branch that follows the modal comes after the
  saves were issued.
\<close>

definition on_statuses ::
  "env \<Rightarrow> picked_file list \<Rightarrow> status list
     \<Rightarrow> effect list \<times> jsval list deferred completion" where
  "on_statuses e files statuses =
     (case partition_statuses files statuses of (existingDocuments, newFiles) \<Rightarrow>
        (case useExistingDocuments e existingDocuments of (t1, existing) \<Rightarrow>
           (case createDocuments e newFiles of
              (t2, Threw err) \<Rightarrow> (t1 @ t2, Threw err)
            | (t2, Returned created) \<Rightarrow>
                (t1 @ t2, Returned (join_branches existing created)))))"

text \<open>
  \<^verbatim>\<open>mapDocuments(files)\<close>: the promise of the second \<^verbatim>\<open>then\<close>. Its callback
  returns what \<^verbatim>\<open>refreshPermissionsAndMap\<close> returns, so the promise is resolved
  with that value as soon as the callback has run.
\<close>

definition mapDocuments :: "env \<Rightarrow> picked_file list \<Rightarrow> effect list \<times> jsval deferred" where
  "mapDocuments e files =
     (case checkDocumentsExist e files of
        (t0, Inl err) \<Rightarrow> (t0, Rejected err)
      | (t0, Inr statuses) \<Rightarrow>
          (case on_statuses e files statuses of
             (t1, Threw err) \<Rightarrow>
               (t0 @ t1, if then_catches e then Rejected err else Pending)
           | (t1, Returned (Resolved documents)) \<Rightarrow>
               (case refreshPermissionsAndMap e documents of
                  (t2, r) \<Rightarrow> (t0 @ t1 @ t2, Resolved r))
           | (t1, Returned (Rejected err)) \<Rightarrow> (t0 @ t1, Rejected err)
           | (t1, Returned Pending) \<Rightarrow> (t0 @ t1, Pending)))"

subsection \<open>The spec's wording of the partition and of the size invariant\<close>

text \<open>
  The spec's partition: \<open>existingMatches\<close> are the statuses where exists is true,
  \<open>newFiles\<close> the files whose id has no status where exists is true.
\<close>

definition spec_existingMatches :: "status list \<Rightarrow> status list" where
  "spec_existingMatches statuses = filter exists statuses"

definition spec_newFiles :: "picked_file list \<Rightarrow> status list \<Rightarrow> picked_file list" where
  "spec_newFiles files statuses =
     filter (\<lambda>f. \<not> list_ex (\<lambda>st. exists st \<and> gdrive_id st = file_id f) statuses) files"

text \<open>
  The existence service answers the files one for one: no id twice among the
  files, no id twice among the statuses, and the same ids on both sides.
\<close>

definition one_for_one :: "picked_file list \<Rightarrow> status list \<Rightarrow> bool" where
  "one_for_one files statuses =
     (distinct (map file_id files) \<and> distinct (map gdrive_id statuses) \<and>
      set (map gdrive_id statuses) = set (map file_id files))"

text \<open>
  Modelled from the spec: the existence service behind
  \<^verbatim>\<open>/api/document/documents_exist\<close> is not among the sources. The spec says of
  its answer "One per input FileDescriptor" and "Result length equals input
  length"; the size invariant is stated for answers of that kind.
\<close>

definition one_status_per_file :: "picked_file list \<Rightarrow> status list \<Rightarrow> bool" where
  "one_status_per_file files statuses = (length statuses = length files)"

text \<open>
  The admitted existing documents of a run: the matched statuses, when the user
  proceeded and the admin-grant request for them succeeded; none otherwise.
\<close>

definition admitted_documents :: "env \<Rightarrow> status list \<Rightarrow> status list" where
  "admitted_documents e statuses =
     (let matches = filter exists statuses in
      if confirm_answer e = Proceed \<and> \<not> isl (make_admin e (map gdrive_id matches))
      then matches else [])"

text \<open>The successfully created documents: the saves of new files that succeeded.\<close>

definition created_documents :: "env \<Rightarrow> picked_file option list \<Rightarrow> document list" where
  "created_documents e newFiles =
     concat (map (\<lambda>entry. case entry of
                     None \<Rightarrow> []
                   | Some f \<Rightarrow> (case save e (new_document f) of
                                  Inl _ \<Rightarrow> [] | Inr d \<Rightarrow> [d])) newFiles)"

subsection \<open>Example runs\<close>

definition fileA :: picked_file where
  "fileA = \<lparr>file_id = ''A'', file_title = ''a.pdf''\<rparr>"

definition fileB :: picked_file where
  "fileB = \<lparr>file_id = ''B'', file_title = ''b.pdf''\<rparr>"

definition fileC :: picked_file where
  "fileC = \<lparr>file_id = ''C'', file_title = ''c.pdf''\<rparr>"

text \<open>What the server holds for the file with id A, and what it answers for an id.\<close>

definition stored :: "nat \<Rightarrow> attrs" where
  "stored n = \<lparr>doc_id = Some n, title = ''a.pdf'', source_gdrive_id = ''A'', context_id = None\<rparr>"

definition status_of :: "string \<Rightarrow> status" where
  "status_of i = \<lparr>gdrive_id = i, exists = (i = ''A''), object = stored 7\<rparr>"

text \<open>A successful save gives the instance its id.\<close>

definition saved :: "document \<Rightarrow> document" where
  "saved d = (case d of Document a \<Rightarrow> Document (a\<lparr>doc_id := Some 1\<rparr>))"

text \<open>Every collaborator succeeds; the file with id A is known to the server.\<close>

definition env_ok :: env where
  "env_ok =
     \<lparr>parent_type = ''Audit'', parent_title = ''Q1'',
      documents_exist = (\<lambda>ids. Inr (map status_of ids)),
      confirm_answer = Proceed,
      make_admin = (\<lambda>ids. Inr ()),
      save = (\<lambda>d. Inr (saved d)),
      refreshPermissions = Inr (),
      then_catches = True\<rparr>"

text \<open>The same with one collaborator changed: a request that fails, a cancelled modal.\<close>

definition env_admin_fails :: env where
  "env_admin_fails = env_ok\<lparr>make_admin := (\<lambda>ids. Inl (RequestFailed 500))\<rparr>"

definition env_refresh_fails :: env where
  "env_refresh_fails = env_ok\<lparr>refreshPermissions := Inl (RequestFailed 500)\<rparr>"

text \<open>The save of the file with id B fails, every other save succeeds.\<close>

definition env_save_fails :: env where
  "env_save_fails =
     env_ok\<lparr>save := (\<lambda>d. case d of Document a \<Rightarrow>
        if source_gdrive_id a = ''B'' then Inl (RequestFailed 500) else Inr (saved d))\<rparr>"

definition env_cancel :: env where
  "env_cancel = env_ok\<lparr>confirm_answer := Cancel\<rparr>"

section \<open>Properties\<close>

subsection \<open>Facts about the partition, the saves and the join\<close>

lemma foldl_partition_step:
  "foldl (partition_step files) (xs, ys) statuses =
     (xs @ filter exists statuses,
      ys @ map (\<lambda>st. find (\<lambda>file. file_id file = gdrive_id st) files)
             (filter (\<lambda>st. \<not> exists st) statuses))"
  by (induction statuses arbitrary: xs ys) (simp_all add: partition_step_def)

lemma partition_statuses_eq:
  "partition_statuses files statuses =
     (filter exists statuses,
      map (\<lambda>st. find (\<lambda>file. file_id file = gdrive_id st) files)
        (filter (\<lambda>st. \<not> exists st) statuses))"
  by (simp add: partition_statuses_def foldl_partition_step)

lemma find_id_None: "(find (\<lambda>file. file_id file = i) files = None) = (i \<notin> file_id ` set files)"
  by (auto simp: find_None_iff)

lemma undefined_entry_iff:
  "(None \<in> set (snd (partition_statuses files statuses))) =
     (\<exists>st \<in> set statuses. \<not> exists st \<and> gdrive_id st \<notin> file_id ` set files)"
proof -
  have "(None \<in> set (snd (partition_statuses files statuses))) =
        (\<exists>st \<in> set statuses. \<not> exists st \<and> find (\<lambda>file. file_id file = gdrive_id st) files = None)"
    by (auto simp: partition_statuses_eq image_iff)
  then show ?thesis by (simp add: find_id_None)
qed

lemma save_each_undefined: "None \<in> set fs \<Longrightarrow> snd (save_each e fs) = Threw TypeError"
  by (induction e fs rule: save_each.induct) (auto simp: Let_def split: prod.splits completion.splits)

lemma createDocuments_undefined:
  "None \<in> set fs \<Longrightarrow> snd (createDocuments e fs) = Threw TypeError"
proof -
  assume h: "None \<in> set fs"
  then have ne: "fs \<noteq> []" by auto
  from save_each_undefined [OF h, of e] obtain t where "save_each e fs = (t, Threw TypeError)"
    by (cases "save_each e fs") auto
  with ne show ?thesis by (simp add: createDocuments_def)
qed

lemma on_statuses_undefined:
  "None \<in> set (snd (partition_statuses files statuses)) \<Longrightarrow>
   snd (on_statuses e files statuses) = Threw TypeError"
proof -
  assume h: "None \<in> set (snd (partition_statuses files statuses))"
  obtain ex nf where p: "partition_statuses files statuses = (ex, nf)"
    by (cases "partition_statuses files statuses")
  with h have "snd (createDocuments e nf) = Threw TypeError"
    by (simp add: createDocuments_undefined)
  then obtain t where "createDocuments e nf = (t, Threw TypeError)"
    by (cases "createDocuments e nf") auto
  with p show ?thesis
    by (simp add: on_statuses_def split: prod.splits)
qed

lemma save_each_files:
  "save_each e (map Some fs) =
     (map (\<lambda>f. Save (new_document f)) fs,
      Returned (map (\<lambda>f. save_result e (new_document f)) fs))"
  by (induction fs) (simp_all add: Let_def)

lemma first_rejected_None: "first_rejected (map Resolved argss) = None"
  by (induction argss) simp_all

lemma resolved_args_map: "resolved_args (map Resolved argss) = Some argss"
  by (induction argss) simp_all

lemma jq_when_many:
  "2 \<le> length ds \<Longrightarrow>
   jq_when ds =
     (case first_rejected ds of
        Some e \<Rightarrow> Rejected e
      | None \<Rightarrow>
          (case resolved_args ds of
             Some argss \<Rightarrow> Resolved (map resolve_value argss)
           | None \<Rightarrow> Pending))"
proof -
  assume "2 \<le> length ds"
  then obtain d d' ds' where "ds = d # d' # ds'"
    by (cases ds; cases "tl ds") auto
  then show ?thesis
    by (simp only: jq_when_def list.case)
qed

lemma jq_when_resolved:
  "docs \<noteq> [] \<Longrightarrow> jq_when (map (\<lambda>d. Resolved [Doc d]) docs) = Resolved (map Doc docs)"
proof (cases "2 \<le> length docs")
  case True
  have m: "map (\<lambda>d. Resolved [Doc d]) docs = map Resolved (map (\<lambda>d. [Doc d]) docs)"
    by simp
  from True have "2 \<le> length (map Resolved (map (\<lambda>d. [Doc d]) docs))"
    by simp
  then have j: "jq_when (map Resolved (map (\<lambda>d. [Doc d]) docs)) =
             Resolved (map resolve_value (map (\<lambda>d. [Doc d]) docs))"
    by (simp only: jq_when_many first_rejected_None resolved_args_map option.case)
  have r: "map resolve_value (map (\<lambda>d. [Doc d]) docs) = map Doc docs"
    by (simp add: resolve_value_def)
  show ?thesis
    by (simp only: m j r)
next
  case False
  assume "docs \<noteq> []"
  with False obtain d where "docs = [d]"
    by (cases docs; cases "tl docs") auto
  then show ?thesis by (simp add: jq_when_def)
qed

lemma first_rejected_Some:
  "\<exists>d \<in> set ds. is_rejected d \<Longrightarrow> \<exists>err. first_rejected ds = Some err"
  by (induction ds rule: first_rejected.induct) (auto simp: is_rejected_def)

lemma jq_when_rejected:
  "\<exists>d \<in> set ds. is_rejected d \<Longrightarrow> \<exists>err. jq_when ds = Rejected err"
proof (cases "2 \<le> length ds")
  case True
  assume h: "\<exists>d \<in> set ds. is_rejected d"
  from first_rejected_Some [OF h] obtain err where "first_rejected ds = Some err" ..
  with True show ?thesis by (simp add: jq_when_many)
next
  case False
  assume h: "\<exists>d \<in> set ds. is_rejected d"
  with False obtain d where "ds = [d]"
    by (cases ds; cases "tl ds") auto
  with h show ?thesis
    by (cases d) (simp_all add: jq_when_def is_rejected_def)
qed


subsection \<open>Undefined entries of the new-files list\<close>

text \<open>
  Claim C10. The partition puts no \<^verbatim>\<open>undefined\<close> entry into the new-files list
  exactly when every status with \<open>exists = false\<close> carries the id of some input
  file. A status that breaks this puts an \<^verbatim>\<open>undefined\<close> entry into the list, the
  entry reaches \<^verbatim>\<open>createDocuments\<close>, and building the \<^verbatim>\<open>Document\<close> for it
  throws a \<^verbatim>\<open>TypeError\<close>: the new-document branch returns no promise then, and
  neither does the callback that called it.
\<close>

theorem undefined_entry_reaches_createDocuments:
  "(None \<notin> set (snd (partition_statuses files statuses))) =
     (\<forall>st \<in> set statuses. \<not> exists st \<longrightarrow> gdrive_id st \<in> file_id ` set files)
   \<and> ((\<exists>st \<in> set statuses. \<not> exists st \<and> gdrive_id st \<notin> file_id ` set files) \<longrightarrow>
        None \<in> set (snd (partition_statuses files statuses)) \<and>
        snd (createDocuments e (snd (partition_statuses files statuses))) = Threw TypeError \<and>
        snd (on_statuses e files statuses) = Threw TypeError)"
proof -
  have a: "(None \<notin> set (snd (partition_statuses files statuses))) =
     (\<forall>st \<in> set statuses. \<not> exists st \<longrightarrow> gdrive_id st \<in> file_id ` set files)"
    unfolding undefined_entry_iff by blast
  have b: "(\<exists>st \<in> set statuses. \<not> exists st \<and> gdrive_id st \<notin> file_id ` set files) \<Longrightarrow>
        None \<in> set (snd (partition_statuses files statuses))"
    by (simp only: undefined_entry_iff)
  from a b show ?thesis
    using createDocuments_undefined on_statuses_undefined by blast
qed

theorem undefined_entry_witness:
  "None \<in> set (snd (partition_statuses [fileA] [status_of ''B''])) \<and>
   snd (createDocuments env_ok (snd (partition_statuses [fileA] [status_of ''B'']))) = Threw TypeError \<and>
   snd (on_statuses env_ok [fileA] [status_of ''B'']) = Threw TypeError \<and>
   None \<notin> set (snd (partition_statuses [fileA, fileB] [status_of ''B'']))"
  using undefined_entry_reaches_createDocuments [of "[fileA]" "[status_of ''B'']" env_ok]
    undefined_entry_reaches_createDocuments [of "[fileA, fileB]" "[status_of ''B'']" env_ok]
  by (simp add: fileA_def fileB_def status_of_def)


subsection \<open>The partition\<close>

lemma find_id_Some:
  "distinct (map file_id files) \<Longrightarrow> f \<in> set files \<Longrightarrow>
   find (\<lambda>file. file_id file = file_id f) files = Some f"
proof (induction files)
  case Nil
  then show ?case by simp
next
  case (Cons g gs)
  then show ?case by (cases "file_id g = file_id f") auto
qed

lemma one_for_one_newFiles:
  assumes "one_for_one files statuses"
  shows "set (snd (partition_statuses files statuses)) = Some ` set (spec_newFiles files statuses)"
proof -
  from assms have df: "distinct (map file_id files)"
    and ds: "distinct (map gdrive_id statuses)"
    and ids: "gdrive_id ` set statuses = file_id ` set files"
    by (simp_all add: one_for_one_def)
  have same: "st = st'"
    if "st \<in> set statuses" "st' \<in> set statuses" "gdrive_id st = gdrive_id st'" for st st'
    using ds that by (meson distinct_map inj_onD)
  show ?thesis
  proof (rule set_eqI)
    fix x
    show "(x \<in> set (snd (partition_statuses files statuses))) =
          (x \<in> Some ` set (spec_newFiles files statuses))"
    proof
      assume "x \<in> set (snd (partition_statuses files statuses))"
      then obtain st where st: "st \<in> set statuses" "\<not> exists st"
        and x: "x = find (\<lambda>file. file_id file = gdrive_id st) files"
        by (auto simp: partition_statuses_eq)
      from st(1) ids obtain f where f: "f \<in> set files" "file_id f = gdrive_id st"
        by (metis image_iff)
      with df x have xf: "x = Some f"
        by (metis find_id_Some)
      have "\<not> list_ex (\<lambda>st'. exists st' \<and> gdrive_id st' = file_id f) statuses"
        using same st f(2) by (auto simp: list_ex_iff)
      with f(1) xf show "x \<in> Some ` set (spec_newFiles files statuses)"
        by (simp add: spec_newFiles_def)
    next
      assume "x \<in> Some ` set (spec_newFiles files statuses)"
      then obtain f where xf: "x = Some f" and f: "f \<in> set files"
        and no: "\<not> list_ex (\<lambda>st. exists st \<and> gdrive_id st = file_id f) statuses"
        by (auto simp: spec_newFiles_def)
      from f ids obtain st where st: "st \<in> set statuses" "gdrive_id st = file_id f"
        by (metis image_iff)
      with no have ne: "\<not> exists st"
        by (auto simp: list_ex_iff)
      from df f st(2) have "find (\<lambda>file. file_id file = gdrive_id st) files = Some f"
        by (simp add: find_id_Some)
      with st(1) ne xf show "x \<in> set (snd (partition_statuses files statuses))"
        by (force simp: partition_statuses_eq image_iff)
    qed
  qed
qed

lemma on_statuses_effects:
  "fst (on_statuses e files statuses) =
     fst (useExistingDocuments e (fst (partition_statuses files statuses))) @
     fst (createDocuments e (snd (partition_statuses files statuses)))"
  by (simp add: on_statuses_def split: prod.splits completion.splits)

text \<open>
  Claim C6, as amended. The partition is a function of the two lists alone and
  adds no effect to the run: the effects of the callback are those of the two
  branches. It puts exactly the statuses with \<open>exists = true\<close> into the
  existing-documents list and, for each status with \<open>exists = false\<close>, in order,
  the first input file with the id of that status (\<^verbatim>\<open>undefined\<close> when there is
  none) into the new-files list. When the statuses answer the files one for one,
  the new-files list holds exactly the files whose id has no status with
  \<open>exists = true\<close>.
\<close>

theorem partition_classifies:
  "fst (partition_statuses files statuses) = spec_existingMatches statuses \<and>
   snd (partition_statuses files statuses) =
     map (\<lambda>st. find (\<lambda>file. file_id file = gdrive_id st) files)
       (filter (\<lambda>st. \<not> exists st) statuses) \<and>
   fst (on_statuses e files statuses) =
     fst (useExistingDocuments e (fst (partition_statuses files statuses))) @
     fst (createDocuments e (snd (partition_statuses files statuses))) \<and>
   (one_for_one files statuses \<longrightarrow>
      set (snd (partition_statuses files statuses)) = Some ` set (spec_newFiles files statuses))"
  using one_for_one_newFiles [of files statuses] on_statuses_effects [of e files statuses]
  by (simp add: partition_statuses_eq spec_existingMatches_def)

theorem partition_classifies_witness:
  "one_for_one [fileA, fileB, fileC] [status_of ''C'', status_of ''A'', status_of ''B''] \<and>
   partition_statuses [fileA, fileB, fileC] [status_of ''C'', status_of ''A'', status_of ''B''] =
     ([status_of ''A''], [Some fileC, Some fileB]) \<and>
   set [Some fileC, Some fileB] =
     Some ` set (spec_newFiles [fileA, fileB, fileC]
                   [status_of ''C'', status_of ''A'', status_of ''B''])"
proof -
  let ?files = "[fileA, fileB, fileC]"
  let ?statuses = "[status_of ''C'', status_of ''A'', status_of ''B'']"
  have o: "one_for_one ?files ?statuses"
    by (simp add: one_for_one_def fileA_def fileB_def fileC_def status_of_def insert_commute)
  have p: "partition_statuses ?files ?statuses = ([status_of ''A''], [Some fileC, Some fileB])"
    by (simp add: partition_statuses_def partition_step_def fileA_def fileB_def fileC_def
        status_of_def)
  from partition_classifies [of ?files ?statuses env_ok] o
  have "set (snd (partition_statuses ?files ?statuses)) =
        Some ` set (spec_newFiles ?files ?statuses)"
    by blast
  with o p show ?thesis by simp
qed

text \<open>
  Without an answer for a file the two differ: the file has no status with
  \<open>exists = true\<close>, and the new-files list does not hold it.
\<close>

theorem partition_misses_unanswered_file:
  "partition_statuses [fileA] [] = ([], []) \<and> spec_newFiles [fileA] [] = [fileA]"
  by (simp add: partition_statuses_def spec_newFiles_def)


subsection \<open>The new-document branch\<close>

lemma createDocuments_files:
  "fs \<noteq> [] \<Longrightarrow>
   createDocuments e (map Some fs) =
     (Dispatch ParentInstance BEFORE_DOCUMENT_CREATE # map (\<lambda>f. Save (new_document f)) fs @
        (if is_rejected (jq_when (map (\<lambda>f. save_result e (new_document f)) fs))
         then [Dispatch ParentInstance DOCUMENT_CREATE_FAILED] else []),
      Returned (jq_when (map (\<lambda>f. save_result e (new_document f)) fs)))"
  by (simp add: createDocuments_def save_each_files Let_def)

lemma save_result_rejected: "isl (save e d) \<Longrightarrow> is_rejected (save_result e d)"
  by (cases "save e d") (simp_all add: save_result_def is_rejected_def)

text \<open>
  Claim C7. For a non-empty list of new files the branch first dispatches
  \<^verbatim>\<open>BEFORE_DOCUMENT_CREATE\<close> on the parent instance and then issues every save,
  whatever listeners do with the notification. If any save fails, it dispatches
  \<^verbatim>\<open>DOCUMENT_CREATE_FAILED\<close> on the parent instance and the promise it returns
  is rejected.
\<close>

theorem createDocuments_failure:
  "fs \<noteq> [] \<Longrightarrow>
   (\<exists>rest. fst (createDocuments e (map Some fs)) =
      Dispatch ParentInstance BEFORE_DOCUMENT_CREATE # map (\<lambda>f. Save (new_document f)) fs @ rest) \<and>
   ((\<exists>f \<in> set fs. isl (save e (new_document f))) \<longrightarrow>
      (\<exists>err. createDocuments e (map Some fs) =
         (Dispatch ParentInstance BEFORE_DOCUMENT_CREATE # map (\<lambda>f. Save (new_document f)) fs @
            [Dispatch ParentInstance DOCUMENT_CREATE_FAILED],
          Returned (Rejected err))))"
proof -
  assume ne: "fs \<noteq> []"
  let ?ds = "map (\<lambda>f. save_result e (new_document f)) fs"
  have first: "\<exists>rest. fst (createDocuments e (map Some fs)) =
      Dispatch ParentInstance BEFORE_DOCUMENT_CREATE # map (\<lambda>f. Save (new_document f)) fs @ rest"
    by (simp add: createDocuments_files [OF ne])
  have second: "\<exists>err. createDocuments e (map Some fs) =
         (Dispatch ParentInstance BEFORE_DOCUMENT_CREATE # map (\<lambda>f. Save (new_document f)) fs @
            [Dispatch ParentInstance DOCUMENT_CREATE_FAILED],
          Returned (Rejected err))"
    if "\<exists>f \<in> set fs. isl (save e (new_document f))"
  proof -
    from that have "\<exists>d \<in> set ?ds. is_rejected d"
      by (auto intro: save_result_rejected)
    from jq_when_rejected [OF this] obtain err where "jq_when ?ds = Rejected err" ..
    then show ?thesis
      by (simp add: createDocuments_files [OF ne] is_rejected_def)
  qed
  from first second show ?thesis by blast
qed

theorem createDocuments_failure_witness:
  "[fileC, fileB] \<noteq> [] \<and> isl (save env_save_fails (new_document fileB)) \<and>
   (\<exists>err. createDocuments env_save_fails [Some fileC, Some fileB] =
      ([Dispatch ParentInstance BEFORE_DOCUMENT_CREATE,
        Save (new_document fileC), Save (new_document fileB),
        Dispatch ParentInstance DOCUMENT_CREATE_FAILED],
       Returned (Rejected err)))"
proof -
  have s: "isl (save env_save_fails (new_document fileB))"
    by (simp add: env_save_fails_def env_ok_def new_document_def fileB_def)
  then have "\<exists>f \<in> set [fileC, fileB]. isl (save env_save_fails (new_document f))"
    by simp
  with createDocuments_failure [of "[fileC, fileB]" env_save_fails] s
  show ?thesis by simp
qed


lemma makeArray_resolve_value: "makeArray (resolve_value (map Doc docs)) = map Doc docs"
proof (cases docs)
  case Nil
  then show ?thesis by (simp add: resolve_value_def)
next
  case (Cons d ds)
  then show ?thesis by (cases ds) (simp_all add: resolve_value_def)
qed

lemma join_branches_resolved:
  "join_branches (Resolved a1) (Resolved a2) =
     Resolved (makeArray (resolve_value a1) @ makeArray (resolve_value a2))"
  by (simp add: join_branches_def jq_when_def merge_docs_def)

lemma save_results_resolved:
  "map (\<lambda>f. save e (new_document f)) fs = map Inr docs \<Longrightarrow>
   map (\<lambda>f. save_result e (new_document f)) fs = map (\<lambda>d. Resolved [Doc d]) docs"
proof (induction fs arbitrary: docs)
  case Nil
  then show ?case by simp
next
  case (Cons f fs)
  then obtain d ds where "docs = d # ds" by (cases docs) auto
  with Cons show ?case by (simp add: save_result_def)
qed

lemma createDocuments_all_saved:
  assumes ne: "fs \<noteq> []" and ok: "map (\<lambda>f. save e (new_document f)) fs = map Inr docs"
  shows "createDocuments e (map Some fs) =
     (Dispatch ParentInstance BEFORE_DOCUMENT_CREATE # map (\<lambda>f. Save (new_document f)) fs,
      Returned (Resolved (map Doc docs)))"
proof -
  from ok have "length fs = length docs"
    by (metis length_map)
  with ne have "docs \<noteq> []" by auto
  then have j: "jq_when (map (\<lambda>d. Resolved [Doc d]) docs) = Resolved (map Doc docs)"
    by (rule jq_when_resolved)
  have "jq_when (map (\<lambda>f. save_result e (new_document f)) fs) = Resolved (map Doc docs)"
    unfolding save_results_resolved [OF ok] by (rule j)
  then show ?thesis
    by (simp add: createDocuments_files [OF ne] is_rejected_def)
qed

text \<open>
  Claim C5, as amended. For a non-empty list of new files whose saves all
  succeed, the branch is resolved with the saved documents as the arguments of
  the resolution, one argument per file in the order of the files: that is how
  \<^verbatim>\<open>$.when\<close> delivers them, and it is never one array holding them. In a run
  whose existing-document branch is resolved with a list, the merged array then
  holds that list first and the saved documents second.
\<close>

theorem createDocuments_success:
  "fs \<noteq> [] \<Longrightarrow> map (\<lambda>f. save e (new_document f)) fs = map Inr docs \<Longrightarrow>
   createDocuments e (map Some fs) =
     (Dispatch ParentInstance BEFORE_DOCUMENT_CREATE # map (\<lambda>f. Save (new_document f)) fs,
      Returned (Resolved (map Doc docs))) \<and>
   snd (createDocuments e (map Some fs)) \<noteq> Returned (Resolved [Arr (map Doc docs)]) \<and>
   (partition_statuses files statuses = (existingDocuments, map Some fs) \<and>
    snd (useExistingDocuments e existingDocuments) = Resolved [Arr existingDocs] \<longrightarrow>
    snd (on_statuses e files statuses) = Returned (Resolved (existingDocs @ map Doc docs)))"
proof -
  assume ne: "fs \<noteq> []" and ok: "map (\<lambda>f. save e (new_document f)) fs = map Inr docs"
  note c = createDocuments_all_saved [OF ne ok]
  from ok have "length fs = length docs"
    by (metis length_map)
  with ne obtain d ds where "docs = d # ds"
    by (cases docs) auto
  then have "map Doc docs \<noteq> [Arr (map Doc docs)]"
    by simp
  with c have no_array:
    "snd (createDocuments e (map Some fs)) \<noteq> Returned (Resolved [Arr (map Doc docs)])"
    by simp
  have merged: "snd (on_statuses e files statuses) =
      Returned (Resolved (existingDocs @ map Doc docs))"
    if p: "partition_statuses files statuses = (existingDocuments, map Some fs)"
      and u: "snd (useExistingDocuments e existingDocuments) = Resolved [Arr existingDocs]"
  proof -
    from u obtain t where "useExistingDocuments e existingDocuments = (t, Resolved [Arr existingDocs])"
      by (cases "useExistingDocuments e existingDocuments") auto
    moreover have "makeArray (resolve_value [Arr existingDocs]) = existingDocs"
      by (simp add: resolve_value_def)
    ultimately show ?thesis
      by (simp add: on_statuses_def p c join_branches_resolved makeArray_resolve_value)
  qed
  from c no_array merged show ?thesis by blast
qed

theorem createDocuments_success_witness:
  "[fileB, fileC] \<noteq> [] \<and>
   map (\<lambda>f. save env_ok (new_document f)) [fileB, fileC] =
     map Inr [saved (new_document fileB), saved (new_document fileC)] \<and>
   createDocuments env_ok [Some fileB, Some fileC] =
     ([Dispatch ParentInstance BEFORE_DOCUMENT_CREATE,
       Save (new_document fileB), Save (new_document fileC)],
      Returned (Resolved [Doc (saved (new_document fileB)), Doc (saved (new_document fileC))])) \<and>
   partition_statuses [fileA, fileB, fileC] [status_of ''B'', status_of ''A'', status_of ''C''] =
     ([status_of ''A''], [Some fileB, Some fileC]) \<and>
   snd (useExistingDocuments env_ok [status_of ''A'']) = Resolved [Arr [Doc (Document (stored 7))]] \<and>
   snd (on_statuses env_ok [fileA, fileB, fileC]
          [status_of ''B'', status_of ''A'', status_of ''C'']) =
     Returned (Resolved [Doc (Document (stored 7)),
                         Doc (saved (new_document fileB)), Doc (saved (new_document fileC))])"
proof -
  let ?files = "[fileA, fileB, fileC]"
  let ?statuses = "[status_of ''B'', status_of ''A'', status_of ''C'']"
  have ne: "[fileB, fileC] \<noteq> []"
    by simp
  have ok: "map (\<lambda>f. save env_ok (new_document f)) [fileB, fileC] =
     map Inr [saved (new_document fileB), saved (new_document fileC)]"
    by (simp add: env_ok_def)
  have p: "partition_statuses ?files ?statuses = ([status_of ''A''], map Some [fileB, fileC])"
    by (simp add: partition_statuses_def partition_step_def fileA_def fileB_def fileC_def
        status_of_def)
  have u: "snd (useExistingDocuments env_ok [status_of ''A'']) =
      Resolved [Arr [Doc (Document (stored 7))]]"
    by (simp add: useExistingDocuments_def showConfirm_def makeAdmin_def resolve_def
        existing_docs_def env_ok_def status_of_def)
  note t = createDocuments_success [OF ne ok, of ?files ?statuses "[status_of ''A'']"
      "[Doc (Document (stored 7))]"]
  from t have c: "createDocuments env_ok [Some fileB, Some fileC] =
     ([Dispatch ParentInstance BEFORE_DOCUMENT_CREATE,
       Save (new_document fileB), Save (new_document fileC)],
      Returned (Resolved [Doc (saved (new_document fileB)), Doc (saved (new_document fileC))]))"
    by simp
  from t p u have m: "snd (on_statuses env_ok ?files ?statuses) =
     Returned (Resolved [Doc (Document (stored 7)),
                         Doc (saved (new_document fileB)), Doc (saved (new_document fileC))])"
    by simp
  from p have p': "partition_statuses ?files ?statuses = ([status_of ''A''], [Some fileB, Some fileC])"
    by simp
  from ne ok c p' u m show ?thesis by blast
qed

text \<open>
  For one new file the branch is resolved with the saved document itself, not
  with a list holding it.
\<close>

theorem createDocuments_resolves_with_bare_document:
  "createDocuments env_ok [Some fileB] =
     ([Dispatch ParentInstance BEFORE_DOCUMENT_CREATE, Save (new_document fileB)],
      Returned (Resolved [Doc (saved (new_document fileB))])) \<and>
   resolve_value [Doc (saved (new_document fileB))] = Doc (saved (new_document fileB)) \<and>
   snd (createDocuments env_ok [Some fileB]) \<noteq>
     Returned (Resolved [Arr [Doc (saved (new_document fileB))]])"
  by (simp add: createDocuments_def save_result_def jq_when_def is_rejected_def resolve_value_def
      env_ok_def Let_def)


subsection \<open>The existing-document branch\<close>

lemma useExistingDocuments_none: "useExistingDocuments e [] = ([], Resolved [Arr []])"
  by (simp add: useExistingDocuments_def resolve_def)

lemma useExistingDocuments_cancel:
  "documents \<noteq> [] \<Longrightarrow> confirm_answer e = Cancel \<Longrightarrow>
   useExistingDocuments e documents = (fst (showConfirm e documents), Resolved [Arr []])"
  by (simp add: useExistingDocuments_def showConfirm_def resolve_def Let_def)

lemma useExistingDocuments_admitted:
  "documents \<noteq> [] \<Longrightarrow> confirm_answer e = Proceed \<Longrightarrow>
   make_admin e (map gdrive_id documents) = Inr u \<Longrightarrow>
   useExistingDocuments e documents =
     (fst (showConfirm e documents) @ fst (makeAdmin e documents),
      Resolved [Arr (existing_docs documents)])"
  by (simp add: useExistingDocuments_def showConfirm_def makeAdmin_def resolve_def Let_def)

lemma useExistingDocuments_grant_failed:
  "documents \<noteq> [] \<Longrightarrow> confirm_answer e = Proceed \<Longrightarrow>
   make_admin e (map gdrive_id documents) = Inl err \<Longrightarrow>
   useExistingDocuments e documents =
     (fst (showConfirm e documents) @ fst (makeAdmin e documents), Pending)"
  by (simp add: useExistingDocuments_def showConfirm_def makeAdmin_def resolve_def Let_def)

lemma createDocuments_none: "createDocuments e [] = ([], Returned (Resolved [Arr []]))"
  by (simp add: createDocuments_def)

lemma refreshPermissionsAndMap_none:
  "refreshPermissionsAndMap e [] = ([Dispatch ViewModel (MAP_OBJECTS [])], Undefined)"
  by (simp add: refreshPermissionsAndMap_def)

lemma partition_all_existing:
  "\<forall>st \<in> set statuses. exists st \<Longrightarrow> partition_statuses files statuses = (statuses, [])"
  by (simp add: partition_statuses_eq)

lemma on_statuses_declined:
  assumes "\<forall>st \<in> set statuses. exists st" and "confirm_answer e = Cancel"
  shows "on_statuses e files statuses =
           (if statuses = [] then [] else fst (showConfirm e statuses), Returned (Resolved []))"
proof (cases "statuses = []")
  case True
  then show ?thesis
    by (simp add: on_statuses_def partition_statuses_def useExistingDocuments_none
        createDocuments_none join_branches_resolved resolve_value_def)
next
  case False
  with assms show ?thesis
    by (simp add: on_statuses_def partition_all_existing useExistingDocuments_cancel
        createDocuments_none join_branches_resolved resolve_value_def)
qed

text \<open>
  Claim C8. When every status says the file exists and the user cancels the
  modal, the existing-document branch is resolved with the empty array, the run
  ends with the \<^verbatim>\<open>MAP_OBJECTS\<close> notification carrying the empty list, and
  among its effects there is no admin-grant request and no save.
\<close>

theorem declined_run:
  "documents_exist e (map file_id files) = Inr statuses \<Longrightarrow>
   \<forall>st \<in> set statuses. exists st \<Longrightarrow> confirm_answer e = Cancel \<Longrightarrow>
   snd (useExistingDocuments e (fst (partition_statuses files statuses))) = Resolved [Arr []] \<and>
   mapDocuments e files =
     (GgrcPost ''/api/document/documents_exist'' (map file_id files) #
        (if statuses = [] then [] else fst (showConfirm e statuses)) @
        [Dispatch ViewModel (MAP_OBJECTS [])],
      Resolved Undefined) \<and>
   (\<forall>ids. GgrcPost ''/api/document/make_admin'' ids \<notin> set (fst (mapDocuments e files))) \<and>
   (\<forall>d. Save d \<notin> set (fst (mapDocuments e files)))"
proof -
  assume q: "documents_exist e (map file_id files) = Inr statuses"
    and ex: "\<forall>st \<in> set statuses. exists st" and c: "confirm_answer e = Cancel"
  have branch: "snd (useExistingDocuments e (fst (partition_statuses files statuses))) =
      Resolved [Arr []]"
    using ex c
    by (cases "statuses = []")
       (simp_all add: partition_all_existing useExistingDocuments_none useExistingDocuments_cancel)
  have run: "mapDocuments e files =
     (GgrcPost ''/api/document/documents_exist'' (map file_id files) #
        (if statuses = [] then [] else fst (showConfirm e statuses)) @
        [Dispatch ViewModel (MAP_OBJECTS [])],
      Resolved Undefined)"
    by (simp add: mapDocuments_def checkDocumentsExist_def q on_statuses_declined [OF ex c]
        refreshPermissionsAndMap_none)
  have "\<forall>ids. GgrcPost ''/api/document/make_admin'' ids \<notin> set (fst (mapDocuments e files))"
    by (simp add: run showConfirm_def Let_def)
  moreover have "\<forall>d. Save d \<notin> set (fst (mapDocuments e files))"
    by (simp add: run showConfirm_def Let_def)
  ultimately show ?thesis using branch run by blast
qed

theorem declined_run_witness:
  "documents_exist env_cancel (map file_id [fileA]) = Inr [status_of ''A''] \<and>
   exists (status_of ''A'') \<and> confirm_answer env_cancel = Cancel \<and>
   snd (useExistingDocuments env_cancel (fst (partition_statuses [fileA] [status_of ''A'']))) =
     Resolved [Arr []] \<and>
   mapDocuments env_cancel [fileA] =
     ([GgrcPost ''/api/document/documents_exist'' [''A''],
       Confirm 1 ''file is'' ''Audit'' ''Q1'',
       Dispatch ViewModel (MAP_OBJECTS [])],
      Resolved Undefined)"
proof -
  have q: "documents_exist env_cancel (map file_id [fileA]) = Inr [status_of ''A'']"
    by (simp add: env_cancel_def env_ok_def fileA_def)
  have ex: "\<forall>st \<in> set [status_of ''A'']. exists st"
    by (simp add: status_of_def)
  have c: "confirm_answer env_cancel = Cancel"
    by (simp add: env_cancel_def)
  from declined_run [OF q ex c] q ex c show ?thesis
    by (simp add: showConfirm_def env_cancel_def env_ok_def fileA_def)
qed


subsection \<open>The size of the merged list\<close>

lemma join_branches_Resolved:
  "join_branches a b = Resolved documents \<Longrightarrow>
   \<exists>a1 a2. a = Resolved a1 \<and> b = Resolved a2 \<and>
     documents = makeArray (resolve_value a1) @ makeArray (resolve_value a2)"
  by (cases a; cases b) (auto simp: join_branches_def jq_when_def merge_docs_def)

lemma existing_branch_resolved:
  assumes "snd (useExistingDocuments e (filter exists statuses)) = Resolved a1"
  shows "a1 = [Arr (existing_docs (admitted_documents e statuses))]"
proof (cases "filter exists statuses = []")
  case True
  with assms show ?thesis
    by (simp add: useExistingDocuments_none admitted_documents_def existing_docs_def)
next
  case ne: False
  show ?thesis
  proof (cases "confirm_answer e")
    case Cancel
    with ne assms show ?thesis
      by (simp add: useExistingDocuments_cancel admitted_documents_def existing_docs_def)
  next
    case Proceed
    show ?thesis
    proof (cases "make_admin e (map gdrive_id (filter exists statuses))")
      case (Inl err)
      with ne Proceed assms show ?thesis
        by (simp add: useExistingDocuments_grant_failed)
    next
      case (Inr u)
      with ne Proceed assms show ?thesis
        by (simp add: useExistingDocuments_admitted admitted_documents_def)
    qed
  qed
qed

lemma no_undefined_entry: "None \<notin> set xs \<Longrightarrow> xs = map Some (map the xs)"
  by (induction xs) auto

lemma created_all_saved:
  "\<forall>f \<in> set fs. \<not> isl (save e (new_document f)) \<Longrightarrow>
   created_documents e (map Some fs) = map (\<lambda>f. projr (save e (new_document f))) fs"
proof (induction fs)
  case Nil
  then show ?case by (simp add: created_documents_def)
next
  case (Cons f fs)
  then have "created_documents e (map Some fs) = map (\<lambda>f. projr (save e (new_document f))) fs"
    by simp
  moreover from Cons.prems obtain d where "save e (new_document f) = Inr d"
    by (cases "save e (new_document f)") auto
  ultimately show ?case by (simp add: created_documents_def)
qed

lemma new_branch_resolved:
  assumes "snd (createDocuments e nf) = Returned (Resolved a2)"
  shows "makeArray (resolve_value a2) = map Doc (created_documents e nf) \<and>
         length (created_documents e nf) = length nf"
proof (cases "nf = []")
  case True
  with assms show ?thesis
    by (auto simp: createDocuments_none created_documents_def resolve_value_def)
next
  case ne: False
  have "None \<notin> set nf"
    using assms createDocuments_undefined [of nf e] by auto
  then obtain fs where nf: "nf = map Some fs"
    using no_undefined_entry by blast
  with ne have fne: "fs \<noteq> []" by auto
  let ?ds = "map (\<lambda>f. save_result e (new_document f)) fs"
  from assms nf have j: "jq_when ?ds = Resolved a2"
    by (simp add: createDocuments_files [OF fne])
  have all: "\<forall>f \<in> set fs. \<not> isl (save e (new_document f))"
  proof (rule ccontr)
    assume "\<not> (\<forall>f \<in> set fs. \<not> isl (save e (new_document f)))"
    then have "\<exists>d \<in> set ?ds. is_rejected d"
      by (auto intro: save_result_rejected)
    from jq_when_rejected [OF this] j show False by auto
  qed
  let ?docs = "map (\<lambda>f. projr (save e (new_document f))) fs"
  from all have ok: "map (\<lambda>f. save e (new_document f)) fs = map Inr ?docs"
    by simp
  from createDocuments_all_saved [OF fne ok] assms nf have a2: "a2 = map Doc ?docs"
    by simp
  have "makeArray (resolve_value a2) = map Doc ?docs"
    unfolding a2 by (rule makeArray_resolve_value)
  with created_all_saved [OF all] nf show ?thesis
    by simp
qed

lemma merged_documents:
  "snd (on_statuses e files statuses) = Returned (Resolved documents) \<Longrightarrow>
   documents = existing_docs (admitted_documents e statuses) @
               map Doc (created_documents e (snd (partition_statuses files statuses))) \<and>
   length documents =
     length (admitted_documents e statuses) + length (created_documents e (snd (partition_statuses files statuses))) \<and>
   length documents \<le> length statuses \<and>
   (length statuses \<le> length files \<longrightarrow> length documents \<le> length files) \<and>
   (confirm_answer e = Cancel \<longrightarrow>
      admitted_documents e statuses = [] \<and>
      length documents = length (created_documents e (snd (partition_statuses files statuses))))"
proof -
  assume fin: "snd (on_statuses e files statuses) = Returned (Resolved documents)"
  let ?ex = "filter exists statuses"
  let ?nf = "snd (partition_statuses files statuses)"
  obtain nf where p: "partition_statuses files statuses = (?ex, nf)"
    by (simp add: partition_statuses_eq)
  then have nf: "?nf = nf" by simp
  obtain t1 existing where u: "useExistingDocuments e ?ex = (t1, existing)"
    by (cases "useExistingDocuments e ?ex")
  obtain t2 c where cd: "createDocuments e nf = (t2, c)"
    by (cases "createDocuments e nf")
  from fin have "snd (case c of Returned x \<Rightarrow>
                         (t1 @ t2, Returned (join_branches existing x))
                      | Threw err \<Rightarrow> (t1 @ t2, Threw err)) = Returned (Resolved documents)"
    by (simp add: on_statuses_def p u cd)
  then obtain cr where c: "c = Returned cr"
    and j: "join_branches existing cr = Resolved documents"
    by (cases c) simp_all
  from join_branches_Resolved [OF j] obtain a1 a2 where
    a1: "existing = Resolved a1" and a2: "cr = Resolved a2" and
    d: "documents = makeArray (resolve_value a1) @ makeArray (resolve_value a2)"
    by blast
  from u a1 have "a1 = [Arr (existing_docs (admitted_documents e statuses))]"
    by (simp add: existing_branch_resolved)
  moreover from cd c a2 have n: "makeArray (resolve_value a2) = map Doc (created_documents e ?nf) \<and>
      length (created_documents e ?nf) = length ?nf"
    unfolding nf by (simp add: new_branch_resolved)
  ultimately have docs: "documents = existing_docs (admitted_documents e statuses) @ map Doc (created_documents e ?nf)"
    using d by (simp add: resolve_value_def)
  then have len: "length documents = length (admitted_documents e statuses) + length (created_documents e ?nf)"
    by (simp add: existing_docs_def)
  have "length (admitted_documents e statuses) \<le> length ?ex"
    by (simp add: admitted_documents_def Let_def)
  moreover have "length ?nf = length (filter (\<lambda>st. \<not> exists st) statuses)"
    by (simp add: partition_statuses_eq)
  moreover have "length ?ex + length (filter (\<lambda>st. \<not> exists st) statuses) = length statuses"
    by (rule sum_length_filter_compl)
  ultimately have bound: "length documents \<le> length statuses"
    using len n by linarith
  have declined: "admitted_documents e statuses = []" if "confirm_answer e = Cancel"
    using that by (simp add: admitted_documents_def)
  from docs len bound declined show ?thesis by auto
qed

text \<open>
  Claim C4. For every run that finalizes, with the existence service answering
  one status per input file as the spec requires of it, the size of the merged
  document list is the number of admitted existing documents plus the number
  of successfully created documents, and it is at most the number of input
  files; when the modal was cancelled the matched files contribute no
  document.
\<close>

theorem merged_size:
  "one_status_per_file files statuses \<Longrightarrow>
   snd (on_statuses e files statuses) = Returned (Resolved documents) \<Longrightarrow>
   length documents =
     length (admitted_documents e statuses) +
     length (created_documents e (snd (partition_statuses files statuses))) \<and>
   length documents \<le> length files \<and>
   (confirm_answer e = Cancel \<longrightarrow>
      admitted_documents e statuses = [] \<and>
      length documents = length (created_documents e (snd (partition_statuses files statuses))))"
proof -
  assume one: "one_status_per_file files statuses"
    and fin: "snd (on_statuses e files statuses) = Returned (Resolved documents)"
  from one have "length statuses \<le> length files"
    by (simp add: one_status_per_file_def)
  with merged_documents [OF fin] show ?thesis
    by blast
qed

theorem merged_size_witness:
  "snd (on_statuses env_ok [fileA, fileB] [status_of ''A'', status_of ''B'']) =
     Returned (Resolved [Doc (Document (stored 7)), Doc (saved (new_document fileB))]) \<and>
   admitted_documents env_ok [status_of ''A'', status_of ''B''] = [status_of ''A''] \<and>
   created_documents env_ok
       (snd (partition_statuses [fileA, fileB] [status_of ''A'', status_of ''B''])) =
     [saved (new_document fileB)] \<and>
   length [Doc (Document (stored 7)), Doc (saved (new_document fileB))] =
     length (admitted_documents env_ok [status_of ''A'', status_of ''B'']) +
     length (created_documents env_ok
       (snd (partition_statuses [fileA, fileB] [status_of ''A'', status_of ''B'']))) \<and>
   one_status_per_file [fileA, fileB] [status_of ''A'', status_of ''B''] \<and>
   length [Doc (Document (stored 7)), Doc (saved (new_document fileB))] \<le> length [fileA, fileB] \<and>
   confirm_answer env_cancel = Cancel \<and>
   snd (on_statuses env_cancel [fileA, fileB] [status_of ''A'', status_of ''B'']) =
     Returned (Resolved [Doc (saved (new_document fileB))]) \<and>
   admitted_documents env_cancel [status_of ''A'', status_of ''B''] = []"
proof -
  let ?files = "[fileA, fileB]"
  let ?statuses = "[status_of ''A'', status_of ''B'']"
  have p: "partition_statuses ?files ?statuses = ([status_of ''A''], [Some fileB])"
    by (simp add: partition_statuses_def partition_step_def fileA_def fileB_def status_of_def)
  have u: "useExistingDocuments env_ok [status_of ''A''] =
      ([Confirm 1 ''file is'' ''Audit'' ''Q1'', GgrcPost ''/api/document/make_admin'' [''A'']],
       Resolved [Arr [Doc (Document (stored 7))]])"
    by (simp add: useExistingDocuments_def showConfirm_def makeAdmin_def resolve_def
        existing_docs_def env_ok_def status_of_def)
  have c: "createDocuments env_ok [Some fileB] =
      ([Dispatch ParentInstance BEFORE_DOCUMENT_CREATE, Save (new_document fileB)],
       Returned (Resolved [Doc (saved (new_document fileB))]))"
    by (simp add: createDocuments_def save_result_def jq_when_def is_rejected_def env_ok_def
        Let_def)
  have fin: "snd (on_statuses env_ok ?files ?statuses) =
     Returned (Resolved [Doc (Document (stored 7)), Doc (saved (new_document fileB))])"
    by (simp add: on_statuses_def p u c join_branches_resolved resolve_value_def)
  have a: "admitted_documents env_ok ?statuses = [status_of ''A'']"
    by (simp add: admitted_documents_def env_ok_def status_of_def)
  have cr: "created_documents env_ok (snd (partition_statuses ?files ?statuses)) =
      [saved (new_document fileB)]"
    by (simp add: p created_documents_def env_ok_def)
  have one: "one_status_per_file ?files ?statuses"
    by (simp add: one_status_per_file_def)
  have proceeded:
    "length [Doc (Document (stored 7)), Doc (saved (new_document fileB))] =
       length (admitted_documents env_ok ?statuses) +
       length (created_documents env_ok (snd (partition_statuses ?files ?statuses))) \<and>
     length [Doc (Document (stored 7)), Doc (saved (new_document fileB))] \<le> length ?files"
    using merged_size [OF one fin] by (simp add: a cr)
  have k: "confirm_answer env_cancel = Cancel"
    by (simp add: env_cancel_def)
  have u': "useExistingDocuments env_cancel [status_of ''A''] =
      ([Confirm 1 ''file is'' ''Audit'' ''Q1''], Resolved [Arr []])"
    by (simp add: useExistingDocuments_def showConfirm_def resolve_def
        env_cancel_def env_ok_def)
  have c': "createDocuments env_cancel [Some fileB] =
      ([Dispatch ParentInstance BEFORE_DOCUMENT_CREATE, Save (new_document fileB)],
       Returned (Resolved [Doc (saved (new_document fileB))]))"
    by (simp add: createDocuments_def save_result_def jq_when_def is_rejected_def
        env_cancel_def env_ok_def Let_def)
  have fin': "snd (on_statuses env_cancel ?files ?statuses) =
     Returned (Resolved [Doc (saved (new_document fileB))])"
    by (simp add: on_statuses_def p u' c' join_branches_resolved resolve_value_def)
  have declined: "admitted_documents env_cancel ?statuses = []"
    using merged_size [OF one fin'] k by blast
  from fin a cr proceeded one k fin' declined show ?thesis by simp
qed

subsection \<open>The finalizer and the promise of the run\<close>

lemma useExistingDocuments_no_mapping:
  "Dispatch tg ev \<notin> set (fst (useExistingDocuments e documents))"
  by (simp add: useExistingDocuments_def showConfirm_def makeAdmin_def Let_def
      split: answer.splits sum.splits)

lemma save_each_effects: "x \<in> set (fst (save_each e nf)) \<Longrightarrow> \<exists>d. x = Save d"
  by (induction e nf rule: save_each.induct)
     (auto simp: Let_def split: prod.splits completion.splits)

lemma createDocuments_no_mapping:
  "Dispatch tg (MAP_OBJECTS ds) \<notin> set (fst (createDocuments e nf))"
proof
  assume h: "Dispatch tg (MAP_OBJECTS ds) \<in> set (fst (createDocuments e nf))"
  obtain t c where s: "save_each e nf = (t, c)"
    by (cases "save_each e nf")
  have "Dispatch tg (MAP_OBJECTS ds) \<notin> set t"
    using save_each_effects [of "Dispatch tg (MAP_OBJECTS ds)" e nf] s by auto
  with h s show False
    by (cases c) (auto simp: createDocuments_def Let_def split: if_splits)
qed

lemma on_statuses_no_mapping:
  "Dispatch tg (MAP_OBJECTS ds) \<notin> set (fst (on_statuses e files statuses))"
  by (simp add: on_statuses_effects useExistingDocuments_no_mapping createDocuments_no_mapping)

text \<open>
  Claim C3, as amended. For every run that reaches the finalize step with a
  non-empty document list, a failure of the permission refresh does not reach
  the promise \<^verbatim>\<open>mapDocuments\<close> returned: that promise is resolved with
  \<^verbatim>\<open>undefined\<close>, the refresh is the last effect of the run, and no
  \<^verbatim>\<open>MAP_OBJECTS\<close> notification is dispatched.
\<close>

theorem refresh_failure_is_silent:
  "documents_exist e (map file_id files) = Inr statuses \<Longrightarrow>
   snd (on_statuses e files statuses) = Returned (Resolved documents) \<Longrightarrow>
   documents \<noteq> [] \<Longrightarrow> refreshPermissions e = Inl err \<Longrightarrow>
   mapDocuments e files =
     (GgrcPost ''/api/document/documents_exist'' (map file_id files) #
        fst (on_statuses e files statuses) @ [RefreshPermissions],
      Resolved Undefined) \<and>
   (\<forall>tg ds. Dispatch tg (MAP_OBJECTS ds) \<notin> set (fst (mapDocuments e files)))"
proof -
  assume q: "documents_exist e (map file_id files) = Inr statuses"
    and fin: "snd (on_statuses e files statuses) = Returned (Resolved documents)"
    and ne: "documents \<noteq> []" and r: "refreshPermissions e = Inl err"
  from fin obtain t where o: "on_statuses e files statuses = (t, Returned (Resolved documents))"
    by (cases "on_statuses e files statuses") auto
  from ne r have f: "refreshPermissionsAndMap e documents = ([RefreshPermissions], Undefined)"
    by (simp add: refreshPermissionsAndMap_def)
  have run: "mapDocuments e files =
     (GgrcPost ''/api/document/documents_exist'' (map file_id files) #
        fst (on_statuses e files statuses) @ [RefreshPermissions],
      Resolved Undefined)"
    by (simp add: mapDocuments_def checkDocumentsExist_def q o f)
  have "\<forall>tg ds. Dispatch tg (MAP_OBJECTS ds) \<notin> set (fst (mapDocuments e files))"
    by (simp add: run on_statuses_no_mapping)
  with run show ?thesis by simp
qed

lemma run_refresh_fails:
  "on_statuses env_refresh_fails [fileB] [status_of ''B''] =
     ([Dispatch ParentInstance BEFORE_DOCUMENT_CREATE, Save (new_document fileB)],
      Returned (Resolved [Doc (saved (new_document fileB))]))"
  by (simp add: on_statuses_def partition_statuses_def partition_step_def
      useExistingDocuments_none createDocuments_def save_result_def jq_when_def is_rejected_def
      join_branches_resolved resolve_value_def Let_def
      env_refresh_fails_def env_ok_def fileB_def status_of_def)

theorem refresh_failure_is_silent_witness:
  "documents_exist env_refresh_fails (map file_id [fileB]) = Inr [status_of ''B''] \<and>
   snd (on_statuses env_refresh_fails [fileB] [status_of ''B'']) =
     Returned (Resolved [Doc (saved (new_document fileB))]) \<and>
   refreshPermissions env_refresh_fails = Inl (RequestFailed 500) \<and>
   snd (mapDocuments env_refresh_fails [fileB]) = Resolved Undefined \<and>
   (\<forall>tg ds. Dispatch tg (MAP_OBJECTS ds) \<notin> set (fst (mapDocuments env_refresh_fails [fileB])))"
proof -
  have q: "documents_exist env_refresh_fails (map file_id [fileB]) = Inr [status_of ''B'']"
    by (simp add: env_refresh_fails_def env_ok_def fileB_def)
  have fin: "snd (on_statuses env_refresh_fails [fileB] [status_of ''B'']) =
     Returned (Resolved [Doc (saved (new_document fileB))])"
    by (simp add: run_refresh_fails)
  have r: "refreshPermissions env_refresh_fails = Inl (RequestFailed 500)"
    by (simp add: env_refresh_fails_def)
  have ne: "[Doc (saved (new_document fileB))] \<noteq> []"
    by simp
  note run = refresh_failure_is_silent [OF q fin ne r]
  from run have a: "snd (mapDocuments env_refresh_fails [fileB]) = Resolved Undefined"
    by simp
  from run have b: "\<forall>tg ds. Dispatch tg (MAP_OBJECTS ds) \<notin>
      set (fst (mapDocuments env_refresh_fails [fileB]))"
    by blast
  from q fin r a b show ?thesis by blast
qed

text \<open>
  The run of one new file whose permission refresh fails: the promise is
  resolved, not rejected.
\<close>

theorem refresh_failure_resolves_run:
  "refreshPermissions env_refresh_fails = Inl (RequestFailed 500) \<and>
   mapDocuments env_refresh_fails [fileB] =
     ([GgrcPost ''/api/document/documents_exist'' [''B''],
       Dispatch ParentInstance BEFORE_DOCUMENT_CREATE,
       Save (new_document fileB),
       RefreshPermissions],
      Resolved Undefined)"
proof -
  have "documents_exist env_refresh_fails (map file_id [fileB]) = Inr [status_of ''B'']"
    by (simp add: env_refresh_fails_def env_ok_def fileB_def)
  moreover have "refreshPermissionsAndMap env_refresh_fails [Doc (saved (new_document fileB))] =
      ([RefreshPermissions], Undefined)"
    by (simp add: refreshPermissionsAndMap_def env_refresh_fails_def)
  moreover have "map file_id [fileB] = [''B'']"
    by (simp add: fileB_def)
  moreover have "refreshPermissions env_refresh_fails = Inl (RequestFailed 500)"
    by (simp add: env_refresh_fails_def)
  ultimately show ?thesis
    by (simp add: mapDocuments_def checkDocumentsExist_def run_refresh_fails)
qed

text \<open>
  Claim C2, as amended. For the empty list of files the run starts with the
  existence query, sent with an empty id list; when that query answers with the
  empty status list, the run shows no modal, sends no other request, saves
  nothing, skips the permission refresh and ends with the \<^verbatim>\<open>MAP_OBJECTS\<close>
  notification carrying the empty list.
\<close>

theorem empty_run:
  "(\<exists>rest. fst (mapDocuments e []) = GgrcPost ''/api/document/documents_exist'' [] # rest) \<and>
   (documents_exist e [] = Inr [] \<longrightarrow>
      mapDocuments e [] =
        ([GgrcPost ''/api/document/documents_exist'' [], Dispatch ViewModel (MAP_OBJECTS [])],
         Resolved Undefined))"
proof -
  have first: "\<exists>rest. fst (mapDocuments e []) = GgrcPost ''/api/document/documents_exist'' [] # rest"
    by (simp add: mapDocuments_def checkDocumentsExist_def
        split: sum.splits prod.splits completion.splits deferred.splits)
  have o: "on_statuses e [] [] = ([], Returned (Resolved []))"
    by (simp add: on_statuses_def partition_statuses_def useExistingDocuments_none
        createDocuments_none join_branches_resolved resolve_value_def)
  have "mapDocuments e [] =
        ([GgrcPost ''/api/document/documents_exist'' [], Dispatch ViewModel (MAP_OBJECTS [])],
         Resolved Undefined)" if "documents_exist e [] = Inr []"
    by (simp add: mapDocuments_def checkDocumentsExist_def that o refreshPermissionsAndMap_none)
  with first show ?thesis by blast
qed

theorem empty_run_witness:
  "documents_exist env_ok [] = Inr [] \<and>
   mapDocuments env_ok [] =
     ([GgrcPost ''/api/document/documents_exist'' [], Dispatch ViewModel (MAP_OBJECTS [])],
      Resolved Undefined)"
proof -
  have q: "documents_exist env_ok [] = Inr []"
    by (simp add: env_ok_def)
  with empty_run [of env_ok] show ?thesis by blast
qed

text \<open>The run on the empty list of files does send a request.\<close>

theorem empty_run_queries_existence:
  "GgrcPost ''/api/document/documents_exist'' [] \<in> set (fst (mapDocuments env_ok []))"
  by (simp add: mapDocuments_def checkDocumentsExist_def on_statuses_def partition_statuses_def
      useExistingDocuments_none createDocuments_none join_branches_resolved resolve_value_def
      refreshPermissionsAndMap_none env_ok_def)

text \<open>
  Claim C9, as amended. For the empty document list the finalizer skips the
  permission refresh and dispatches exactly one \<^verbatim>\<open>MAP_OBJECTS\<close> notification
  carrying the empty list, on the view model of the component (not on the
  parent instance). For a non-empty list it calls the permission refresh and
  dispatches the notification, again on the view model, only once the refresh
  has resolved: nothing is dispatched when the refresh fails.
\<close>

theorem finalizer_effects:
  "refreshPermissionsAndMap e [] = ([Dispatch ViewModel (MAP_OBJECTS [])], Undefined) \<and>
   (documents \<noteq> [] \<longrightarrow>
      fst (refreshPermissionsAndMap e documents) =
        (if isl (refreshPermissions e) then [RefreshPermissions]
         else [RefreshPermissions, Dispatch ViewModel (MAP_OBJECTS documents)]))"
  by (cases "refreshPermissions e") (simp_all add: refreshPermissionsAndMap_def)

theorem finalizer_effects_witness:
  "refreshPermissionsAndMap env_ok [] = ([Dispatch ViewModel (MAP_OBJECTS [])], Undefined) \<and>
   [Doc (Document (stored 7))] \<noteq> [] \<and>
   fst (refreshPermissionsAndMap env_ok [Doc (Document (stored 7))]) =
     [RefreshPermissions, Dispatch ViewModel (MAP_OBJECTS [Doc (Document (stored 7))])] \<and>
   fst (refreshPermissionsAndMap env_refresh_fails [Doc (Document (stored 7))]) =
     [RefreshPermissions]"
  using finalizer_effects [of env_ok "[Doc (Document (stored 7))]"]
    finalizer_effects [of env_refresh_fails "[Doc (Document (stored 7))]"]
  by (simp add: env_ok_def env_refresh_fails_def)

text \<open>The notification for the empty list is not dispatched on the parent instance.\<close>

theorem mapping_not_on_parent:
  "fst (refreshPermissionsAndMap env_ok []) = [Dispatch ViewModel (MAP_OBJECTS [])] \<and>
   Dispatch ParentInstance (MAP_OBJECTS []) \<notin> set (fst (refreshPermissionsAndMap env_ok []))"
  by (simp add: refreshPermissionsAndMap_def)

text \<open>
  Claim C1, at the run of one known file where the user proceeds and the
  admin-grant request fails with status 500: the deferred of the
  existing-document branch is never settled (it is not rejected), and neither
  is the promise of the run.
\<close>

theorem admin_grant_failure_never_settles:
  "useExistingDocuments env_admin_fails [status_of ''A''] =
     ([Confirm 1 ''file is'' ''Audit'' ''Q1'', GgrcPost ''/api/document/make_admin'' [''A'']],
      Pending) \<and>
   mapDocuments env_admin_fails [fileA] =
     ([GgrcPost ''/api/document/documents_exist'' [''A''],
       Confirm 1 ''file is'' ''Audit'' ''Q1'',
       GgrcPost ''/api/document/make_admin'' [''A'']],
      Pending)"
proof -
  have u: "useExistingDocuments env_admin_fails [status_of ''A''] =
     ([Confirm 1 ''file is'' ''Audit'' ''Q1'', GgrcPost ''/api/document/make_admin'' [''A'']],
      Pending)"
    by (simp add: useExistingDocuments_def showConfirm_def makeAdmin_def
        env_admin_fails_def env_ok_def status_of_def)
  have p: "partition_statuses [fileA] [status_of ''A''] = ([status_of ''A''], [])"
    by (simp add: partition_statuses_def partition_step_def status_of_def)
  have "on_statuses env_admin_fails [fileA] [status_of ''A''] =
     ([Confirm 1 ''file is'' ''Audit'' ''Q1'', GgrcPost ''/api/document/make_admin'' [''A'']],
      Returned Pending)"
    by (simp add: on_statuses_def p u createDocuments_none join_branches_def jq_when_def)
  moreover have "documents_exist env_admin_fails (map file_id [fileA]) = Inr [status_of ''A'']"
    by (simp add: env_admin_fails_def env_ok_def fileA_def)
  moreover have "map file_id [fileA] = [''A'']"
    by (simp add: fileA_def)
  ultimately have "mapDocuments env_admin_fails [fileA] =
     ([GgrcPost ''/api/document/documents_exist'' [''A''],
       Confirm 1 ''file is'' ''Audit'' ''Q1'',
       GgrcPost ''/api/document/make_admin'' [''A'']],
      Pending)"
    by (simp add: mapDocuments_def checkDocumentsExist_def)
  with u show ?thesis by simp
qed

end
